theory Spec2Isabelle
  imports Main "HOL-Library.Word"
begin

section \<open>Data model of the fake SQL driver (stmt.go)\<close>

text \<open>
  A \<open>driver.Value\<close> is one of the kinds the database/sql driver contract allows. The
  model keeps the kinds whose \<open>%v\<close> rendering is plain text: nil, int64, bool, string
  and []byte. float64 and time.Time values are left out of the model.
\<close>

datatype driver_value =
    VNil
  | VInt64 int
  | VBool bool
  | VString string
  | VBytes "nat list"

text \<open>\<open>driver.NamedValue\<close>: one bound argument of a call.\<close>

record NamedValue =
  Name :: string
  Ordinal :: int
  Value :: driver_value

text \<open>
  Go \<open>error\<close> values that stmt.go produces or passes on: \<open>errClosed\<close>,
  \<open>driver.ErrBadConn\<close>, the value built by
  \<open>fmt.Errorf("unimplemented statement Exec command type of %q", s.command)\<close>
  (kept as the format together with its \<open>%q\<close> operand), and any other error value a test
  registers on a response.
\<close>

datatype err =
    errClosed
  | ErrBadConn
  | Errorf string string
  | OtherError string

text \<open>
  The \<open>Exceptions\<close> bundle of a response: two optional hooks of Go type
  \<open>func() bool\<close>. The struct is declared outside stmt.go; the two fields are the
  ones stmt.go reads.
\<close>

record Exceptions =
  HookQueryBadConnection :: "(unit \<Rightarrow> bool) option"
  HookExecBadConnection :: "(unit \<Rightarrow> bool) option"

text \<open>
  A registered callback is a Go closure \<open>func(string, []driver.NamedValue)\<close>. What it
  does is up to the test that registered it; the model identifies a callback by a number
  and records every invocation in the trace of the world (below).
\<close>

type_synonym callback = nat

text \<open>
  \<open>FakeResponse\<close>, as far as stmt.go reads it. \<open>Response\<close> is a Go
  \<open>[]map[string]interface{}\<close>: a list of maps from column name to value. A Go map has
  no order of its keys, so a record is a HOL map.
\<close>

record FakeResponse =
  Response :: "(string \<rightharpoonup> driver_value) list"
  Error :: "err option"
  Callback :: "callback option"
  LastInsertID :: int
  RowsAffected :: int
  Exceptions :: "Exceptions option"

text \<open>
  The connection and its database handle are declared outside stmt.go. stmt.go tests
  \<open>db\<close> against nil and assigns nil to \<open>currTx\<close>; the database and the transaction a
  connection points to are kept as opaque handles. A pointer that a function only
  dereferences is modelled by the value it points to, and nil by \<open>None\<close>.
\<close>

record FakeConn =
  db :: "nat option"
  currTx :: "nat option"

text \<open>
  \<open>FakeStmt\<close>. The \<open>next\<close> pointer makes the type recursive, so it is a datatype with
  the source's field names as selectors (\<open>q\<close> is \<open>stmt_q\<close>, so that the one-letter name
  stays free for variables, and \<open>next\<close> is \<open>stmt_next\<close>, the word being taken by the
  proof language). A chain of statements is finite in this model.
\<close>

datatype FakeStmt =
  FakeStmt
    (connection: "FakeConn option")
    (stmt_q: string)
    (command: string)
    (stmt_next: "FakeStmt option")
    (closed: bool)
    (colName: "string list")
    (colType: "string list")
    (placeholders: int)

fun set_q :: "string \<Rightarrow> FakeStmt \<Rightarrow> FakeStmt" where
  "set_q v (FakeStmt cn qq cmd nx cl cns cts ph) = FakeStmt cn v cmd nx cl cns cts ph"

text \<open>\<open>FakeTx\<close>: the back-reference \<open>c\<close> to the owning connection (\<open>tx_c\<close> here).\<close>

record FakeTx =
  tx_c :: "FakeConn option"

text \<open>
  The results of the exec path: a \<open>FakeResult\<close>, or the standard library's integer
  result type \<open>driver.RowsAffected\<close>, which supports no last-insert-id.
\<close>

datatype driver_result =
    FakeResult (insertId: int) (rowsAffected: int)
  | driver_RowsAffected int

text \<open>
  Modelled from the spec: \<open>NewFakeResult\<close> and the \<open>FakeResult\<close> type are declared
  outside stmt.go; the spec describes the result as an immutable pair (last-insert-id,
  rows-affected), which the two accessors of the result interface read back.
\<close>

definition NewFakeResult :: "int \<Rightarrow> int \<Rightarrow> driver_result" where
  "NewFakeResult i n = FakeResult i n"

fun Result_LastInsertId :: "driver_result \<Rightarrow> err + int" where
  "Result_LastInsertId (FakeResult i n) = Inr i"
| "Result_LastInsertId (driver_RowsAffected n) =
     Inl (OtherError ''LastInsertId is not supported by this driver'')"

fun Result_RowsAffected :: "driver_result \<Rightarrow> err + int" where
  "Result_RowsAffected (FakeResult i n) = Inr n"
| "Result_RowsAffected (driver_RowsAffected n) = Inr n"

text \<open>
  \<open>RowsCursor\<close>, with the fields the struct literal in \<open>QueryContext\<close> sets. A \<open>row\<close>
  is its \<open>cols\<close> slice; \<open>rows\<close> holds one list of rows per result set.
\<close>

type_synonym row = "driver_value list"

record RowsCursor =
  posRow :: int
  rows :: "row list list"
  cols :: "string list"
  cursor_colType :: "string list list"
  errPos :: int
  cursor_closed :: bool

section \<open>The world around a statement\<close>

text \<open>
  What a call can observe or change besides the statement:
  \<^item> the catalog of registered expectations (the global \<open>Catcher\<close>);
  \<^item> the source behind \<open>rand.Int63\<close>: a stream of 63-bit values and the number of
    values drawn so far;
  \<^item> the order in which a \<open>range\<close> loop enumerates the keys of a Go map, which the
    language leaves open;
  \<^item> the trace of the calls that leave the statement: catalog lookups and callback
    invocations;
  \<^item> the two package-level hooks \<open>HookBadCommit\<close> and \<open>HookBadRollback\<close>;
  \<^item> \<open>fmt_rest\<close>: what \<open>fmt.Sprintf\<close> returns for the formats that the model of
    \<open>Sprintf\<close> below does not spell out.
\<close>

type_synonym matcher = "string \<Rightarrow> NamedValue list \<Rightarrow> bool"

datatype event =
    Lookup string "NamedValue list"
  | Called callback string "NamedValue list"

record world =
  Mocks :: "(matcher \<times> FakeResponse) list"
  rand_src :: "nat \<Rightarrow> 63 word"
  rand_calls :: nat
  range_keys :: "(string \<rightharpoonup> driver_value) \<Rightarrow> string list"
  trace :: "event list"
  HookBadCommit :: "(unit \<Rightarrow> bool) option"
  HookBadRollback :: "(unit \<Rightarrow> bool) option"
  fmt_rest :: "string \<Rightarrow> driver_value \<Rightarrow> string"

text \<open>
  Modelled from the spec: the catalog and \<open>Catcher.FindResponse\<close> are not part of
  stmt.go. The spec gives the policy: the expectations are tried in registration order,
  the first one whose matcher accepts the SQL text and the arguments wins, and when none
  matches a designated default (empty) response is returned, not an error. The default
  response has every field at its zero value.
\<close>

definition default_response :: FakeResponse where
  "default_response =
     \<lparr>Response = [], Error = None, Callback = None, LastInsertID = 0,
      RowsAffected = 0, Exceptions = None\<rparr>"

text \<open>
  Modelled from the spec: \<open>Catcher.FindResponse\<close>, first registered match wins, the
  default response when nothing matches.
\<close>

fun FindResponse :: "(matcher \<times> FakeResponse) list \<Rightarrow> string \<Rightarrow> NamedValue list \<Rightarrow> FakeResponse" where
  "FindResponse [] sql args = default_response"
| "FindResponse ((m, r) # es) sql args =
     (if m sql args then r else FindResponse es sql args)"

text \<open>The call \<open>Catcher.FindResponse(sql, args)\<close> as the statement makes it: the lookup is
  recorded in the trace.\<close>

definition Catcher_FindResponse :: "world \<Rightarrow> string \<Rightarrow> NamedValue list \<Rightarrow> FakeResponse \<times> world" where
  "Catcher_FindResponse w sql args =
     (FindResponse (Mocks w) sql args, w\<lparr>trace := trace w @ [Lookup sql args]\<rparr>)"

definition call_Callback :: "callback \<Rightarrow> string \<Rightarrow> NamedValue list \<Rightarrow> world \<Rightarrow> world" where
  "call_Callback cb sql args w = w\<lparr>trace := trace w @ [Called cb sql args]\<rparr>"

text \<open>\<open>rand.Int63()\<close>: the next value of the source, a non-negative 63-bit integer.\<close>

definition rand_Int63 :: "world \<Rightarrow> int \<times> world" where
  "rand_Int63 w = (uint (rand_src w (rand_calls w)), w\<lparr>rand_calls := Suc (rand_calls w)\<rparr>)"

section \<open>Close\<close>

datatype panic = Panic string

text \<open>
  \<open>FakeStmt.Close\<close>. A panic is \<open>Inl\<close>; a return is \<open>Inr\<close> of the returned error
  (always nil) and the statement after the call. The result of \<open>s.next.Close()\<close> is
  dropped by the source; a panic inside it unwinds through the caller.
\<close>

fun Close :: "FakeStmt \<Rightarrow> panic + (err option \<times> FakeStmt)" where
  "Close (FakeStmt cn qq cmd nx cl cns cts ph) =
     (case cn of
        None \<Rightarrow> Inl (Panic ''nil conn in FakeStmt.Close'')
      | Some conn \<Rightarrow>
          (case db conn of
             None \<Rightarrow>
               Inl (Panic (''in FakeStmt.Close, conn'' @ [CHR 0x27] @ ''s db is nil (already closed)''))
           | Some d \<Rightarrow>
               (let cl' = (if \<not> cl then True else cl) in
                  (case nx of
                     None \<Rightarrow> Inr (None, FakeStmt cn qq cmd None cl' cns cts ph)
                   | Some n \<Rightarrow>
                       (case Close n of
                          Inl p \<Rightarrow> Inl p
                        | Inr (e, n') \<Rightarrow>
                            Inr (None, FakeStmt cn qq cmd (Some n') cl' cns cts ph))))))"

section \<open>Argument substitution on the query path\<close>

text \<open>
  \<open>strings.Replace(s, "?", "%v", 1)\<close>: the first occurrence of the one-byte pattern is
  replaced, a text without it is returned as it is.
\<close>

fun replace_first :: "char \<Rightarrow> string \<Rightarrow> string \<Rightarrow> string" where
  "replace_first old new [] = []"
| "replace_first old new (x # xs) =
     (if x = old then new @ xs else x # replace_first old new xs)"

text \<open>Decimal digits of a natural number, and the \<open>%v\<close> rendering of the value kinds.\<close>

fun decimal :: "nat \<Rightarrow> string" where
  "decimal n =
     (if n < 10 then [''0123456789'' ! n]
      else decimal (n div 10) @ [''0123456789'' ! (n mod 10)])"

declare decimal.simps [simp del]

definition fmt_int :: "int \<Rightarrow> string" where
  "fmt_int i = (if i < 0 then ''-'' @ decimal (nat (- i)) else decimal (nat i))"

fun fmt_bytes :: "nat list \<Rightarrow> string" where
  "fmt_bytes [] = []"
| "fmt_bytes [b] = decimal b"
| "fmt_bytes (b # bs) = decimal b @ '' '' @ fmt_bytes bs"

fun fmt_v :: "driver_value \<Rightarrow> string" where
  "fmt_v VNil = ''<nil>''"
| "fmt_v (VInt64 i) = fmt_int i"
| "fmt_v (VBool b) = (if b then ''true'' else ''false'')"
| "fmt_v (VString s) = s"
| "fmt_v (VBytes bs) = ''['' @ fmt_bytes bs @ '']''"

text \<open>
  The tail \<open>fmt\<close> appends when the operand was consumed by no verb:
  \<open>%!(EXTRA type=value)\<close>, and only \<open><nil>\<close> for a nil operand.
\<close>

fun type_name :: "driver_value \<Rightarrow> string" where
  "type_name VNil = ''<nil>''"
| "type_name (VInt64 i) = ''int64''"
| "type_name (VBool b) = ''bool''"
| "type_name (VString s) = ''string''"
| "type_name (VBytes bs) = ''[]uint8''"

definition extra :: "driver_value \<Rightarrow> string" where
  "extra a =
     ''%!(EXTRA '' @ (if a = VNil then ''<nil>'' else type_name a @ ''='' @ fmt_v a) @ '')''"

text \<open>
  The scan of \<open>fmt.Sprintf(format, a)\<close> with one operand, spelled out for the formats
  whose every \<open>%\<close> is followed by \<open>v\<close> or \<open>%\<close> or ends the text. The flag
  \<open>used\<close> says that the operand has been consumed. \<open>%%\<close> prints one \<open>%\<close>; the
  first \<open>%v\<close> prints the operand and a later one \<open>%!v(MISSING)\<close>; a \<open>%\<close> at the
  end prints \<open>%!(NOVERB)\<close>; an operand that no verb consumed is reported at the end. On
  any other verb, flag, width or precision the scan gives \<open>None\<close>, and \<open>Sprintf\<close>
  then returns what the world's \<open>fmt_rest\<close> says: the rest of the \<open>fmt\<close> package is
  a parameter of the model.
\<close>

fun doPrintf :: "string \<Rightarrow> driver_value \<Rightarrow> bool \<Rightarrow> string option" where
  "doPrintf [] a used = Some (if used then [] else extra a)"
| "doPrintf (c # cs) a used =
     (if c \<noteq> CHR ''%'' then map_option ((#) c) (doPrintf cs a used)
      else
        (case cs of
           [] \<Rightarrow> Some (''%!(NOVERB)'' @ (if used then [] else extra a))
         | v # rest \<Rightarrow>
             (if v = CHR ''%'' then map_option ((#) (CHR ''%'')) (doPrintf rest a used)
              else if v = CHR ''v'' then
                map_option ((@) (if used then ''%!v(MISSING)'' else fmt_v a))
                  (doPrintf rest a True)
              else None)))"

definition Sprintf :: "world \<Rightarrow> string \<Rightarrow> driver_value \<Rightarrow> string" where
  "Sprintf w format a =
     (case doPrintf format a False of None \<Rightarrow> fmt_rest w format a | Some r \<Rightarrow> r)"

text \<open>
  The loop of \<open>QueryContext\<close> over the arguments: each round rewrites the stored text
  by one \<open>Replace\<close> and one \<open>Sprintf\<close>, and the next round starts from the rewritten
  text.
\<close>

fun substitute :: "world \<Rightarrow> string \<Rightarrow> NamedValue list \<Rightarrow> string" where
  "substitute w sql [] = sql"
| "substitute w sql (a # as) =
     substitute w (Sprintf w (replace_first (CHR ''?'') ''%v'' sql) (Value a)) as"

text \<open>
  For comparison, the substitution that the comment in the source describes (replace the
  placeholders by the values): the placeholders of the original text are filled from
  left to right with the given texts, and an inserted text is not looked at again.
  Placeholders beyond the last text stay.
\<close>

fun fill_placeholders :: "string \<Rightarrow> string list \<Rightarrow> string" where
  "fill_placeholders sql [] = sql"
| "fill_placeholders [] (t # ts) = []"
| "fill_placeholders (c # cs) (t # ts) =
     (if c = CHR ''?'' then t @ fill_placeholders cs ts
      else c # fill_placeholders cs (t # ts))"

section \<open>ExecContext and QueryContext\<close>

definition exec_hook_fires :: "FakeResponse \<Rightarrow> bool" where
  "exec_hook_fires fResp =
     (case Exceptions fResp of
        None \<Rightarrow> False
      | Some ex \<Rightarrow> (case HookExecBadConnection ex of None \<Rightarrow> False | Some h \<Rightarrow> h ()))"

definition query_hook_fires :: "FakeResponse \<Rightarrow> bool" where
  "query_hook_fires fResp =
     (case Exceptions fResp of
        None \<Rightarrow> False
      | Some ex \<Rightarrow> (case HookQueryBadConnection ex of None \<Rightarrow> False | Some h \<Rightarrow> h ()))"

definition fire_callback :: "FakeResponse \<Rightarrow> string \<Rightarrow> NamedValue list \<Rightarrow> world \<Rightarrow> world" where
  "fire_callback fResp sql args w =
     (case Callback fResp of None \<Rightarrow> w | Some cb \<Rightarrow> call_Callback cb sql args w)"

text \<open>
  \<open>FakeStmt.ExecContext\<close>. The context argument is not read by the source and is left
  out. The result is the returned pair (an error is \<open>Inl\<close>), the statement and the world
  after the call.
\<close>

definition ExecContext ::
  "world \<Rightarrow> FakeStmt \<Rightarrow> NamedValue list \<Rightarrow> (err + driver_result) \<times> FakeStmt \<times> world" where
  "ExecContext w s args =
     (if closed s then (Inl errClosed, s, w)
      else
        (let (fResp, w1) = Catcher_FindResponse w (stmt_q s) args in
           if exec_hook_fires fResp then (Inl ErrBadConn, s, w1)
           else
             (case Error fResp of
                Some e \<Rightarrow> (Inl e, s, w1)
              | None \<Rightarrow>
                  (let w2 = fire_callback fResp (stmt_q s) args w1 in
                     if command s = ''INSERT'' then
                       (let (id, w3) =
                              (if LastInsertID fResp = 0 then rand_Int63 w2
                               else (LastInsertID fResp, w2))
                        in (Inr (NewFakeResult id 1), s, w3))
                     else if command s = ''UPDATE'' then
                       (Inr (driver_RowsAffected (RowsAffected fResp)), s, w2)
                     else if command s = ''DELETE'' then
                       (Inr (driver_RowsAffected (RowsAffected fResp)), s, w2)
                     else if command s = ''MERGE'' then
                       (Inr (driver_RowsAffected (RowsAffected fResp)), s, w2)
                     else
                       (Inl (Errorf ''unimplemented statement Exec command type of %q''
                               (command s)), s, w2)))))"

text \<open>
  The two loops of \<open>QueryContext\<close> that build the rows. A read of a Go map at a missing
  key gives the zero value of the element type: index 0, the nil interface.
\<close>

fun collect_columns ::
  "string list \<Rightarrow> (string \<rightharpoonup> nat) \<Rightarrow> string list \<Rightarrow> (string \<rightharpoonup> nat) \<times> string list" where
  "collect_columns [] colIndexes columnNames = (colIndexes, columnNames)"
| "collect_columns (k # ks) colIndexes columnNames =
     collect_columns ks (colIndexes(k \<mapsto> length columnNames)) (columnNames @ [k])"

definition index_of :: "(string \<rightharpoonup> nat) \<Rightarrow> string \<Rightarrow> nat" where
  "index_of colIndexes col = (case colIndexes col of None \<Rightarrow> 0 | Some i \<Rightarrow> i)"

definition value_of :: "(string \<rightharpoonup> driver_value) \<Rightarrow> string \<Rightarrow> driver_value" where
  "value_of rcd col = (case rcd col of None \<Rightarrow> VNil | Some v \<Rightarrow> v)"

fun fill_row ::
  "string list \<Rightarrow> (string \<rightharpoonup> nat) \<Rightarrow> (string \<rightharpoonup> driver_value) \<Rightarrow> row \<Rightarrow> row" where
  "fill_row [] colIndexes rcd oneRow = oneRow"
| "fill_row (col # cs) colIndexes rcd oneRow =
     fill_row cs colIndexes rcd (oneRow[index_of colIndexes col := value_of rcd col])"

text \<open>
  \<open>FakeStmt.QueryContext\<close>. The statement returned carries the rewritten SQL text.
\<close>

definition QueryContext ::
  "world \<Rightarrow> FakeStmt \<Rightarrow> NamedValue list \<Rightarrow> (err + RowsCursor) \<times> FakeStmt \<times> world" where
  "QueryContext w s args =
     (if closed s then (Inl errClosed, s, w)
      else
        (let s' = set_q (substitute w (stmt_q s) args) s;
             (fResp, w1) = Catcher_FindResponse w (stmt_q s') args
         in
           if query_hook_fires fResp then (Inl ErrBadConn, s', w1)
           else
             (case Error fResp of
                Some e \<Rightarrow> (Inl e, s', w1)
              | None \<Rightarrow>
                  (let (colIndexes, columnNames) =
                         (if length (Response fResp) > 0
                          then collect_columns (range_keys w1 (Response fResp ! 0))
                                 Map.empty []
                          else (Map.empty, []));
                       rs = map (\<lambda>rcd. fill_row columnNames colIndexes rcd
                                          (replicate (length columnNames) VNil))
                              (Response fResp);
                       cursor = \<lparr>posRow = - 1, rows = [rs], cols = columnNames,
                                 cursor_colType = [], errPos = - 1,
                                 cursor_closed = False\<rparr>;
                       w2 = fire_callback fResp (stmt_q s') args w1
                   in (Inr cursor, s', w2)))))"

text \<open>
  A client that issues calls one after the other on the same statement; it collects the
  error of each call (\<open>None\<close> for a call that succeeded).
\<close>

datatype call = ExecCall "NamedValue list" | QueryCall "NamedValue list"

definition error_of :: "err + 'a \<Rightarrow> err option" where
  "error_of r = (case r of Inl e \<Rightarrow> Some e | Inr x \<Rightarrow> None)"

fun run_calls ::
  "world \<Rightarrow> FakeStmt \<Rightarrow> call list \<Rightarrow> err option list \<times> FakeStmt \<times> world" where
  "run_calls w s [] = ([], s, w)"
| "run_calls w s (ExecCall args # cs) =
     (case ExecContext w s args of
        (r, s', w') \<Rightarrow>
          (case run_calls w' s' cs of (es, s'', w'') \<Rightarrow> (error_of r # es, s'', w'')))"
| "run_calls w s (QueryCall args # cs) =
     (case QueryContext w s args of
        (r, s', w') \<Rightarrow>
          (case run_calls w' s' cs of (es, s'', w'') \<Rightarrow> (error_of r # es, s'', w'')))"

section \<open>Commit and Rollback\<close>

text \<open>
  \<open>FakeTx.Commit\<close> and \<open>FakeTx.Rollback\<close>. Both write through \<open>tx.c\<close> without a nil
  test, so a transaction without a connection panics with the runtime's nil-dereference
  error. The result is the returned error and the transaction after the call, whose
  connection is the one the call wrote to.
\<close>

definition hook_fires :: "(unit \<Rightarrow> bool) option \<Rightarrow> bool" where
  "hook_fires hk = (case hk of None \<Rightarrow> False | Some h \<Rightarrow> h ())"

definition Commit :: "world \<Rightarrow> FakeTx \<Rightarrow> panic + (err option \<times> FakeTx)" where
  "Commit w tx =
     (case tx_c tx of
        None \<Rightarrow> Inl (Panic ''invalid memory address or nil pointer dereference'')
      | Some conn \<Rightarrow>
          (let tx' = tx\<lparr>tx_c := Some (conn\<lparr>currTx := None\<rparr>)\<rparr> in
             if hook_fires (HookBadCommit w) then Inr (Some ErrBadConn, tx')
             else Inr (None, tx')))"

definition Rollback :: "world \<Rightarrow> FakeTx \<Rightarrow> panic + (err option \<times> FakeTx)" where
  "Rollback w tx =
     (case tx_c tx of
        None \<Rightarrow> Inl (Panic ''invalid memory address or nil pointer dereference'')
      | Some conn \<Rightarrow>
          (let tx' = tx\<lparr>tx_c := Some (conn\<lparr>currTx := None\<rparr>)\<rparr> in
             if hook_fires (HookBadRollback w) then Inr (Some ErrBadConn, tx')
             else Inr (None, tx')))"

section \<open>Statement chains\<close>

text \<open>
  Two notions over the \<open>next\<close> chain of a statement, used to state what \<open>Close\<close> does:
  every statement of the chain has a connection whose \<open>db\<close> is not nil; and the chain
  with the closed flag set on every statement and nothing else changed.
\<close>

fun chain_has_db :: "FakeStmt \<Rightarrow> bool" where
  "chain_has_db (FakeStmt cn qq cmd nx cl cns cts ph) =
     ((case cn of None \<Rightarrow> False | Some conn \<Rightarrow> db conn \<noteq> None) \<and>
      (case nx of None \<Rightarrow> True | Some n \<Rightarrow> chain_has_db n))"

fun close_chain :: "FakeStmt \<Rightarrow> FakeStmt" where
  "close_chain (FakeStmt cn qq cmd nx cl cns cts ph) =
     FakeStmt cn qq cmd (case nx of None \<Rightarrow> None | Some n \<Rightarrow> Some (close_chain n))
       True cns cts ph"

section \<open>Concrete inputs\<close>

text \<open>Small inputs on which the theorems below are instantiated and evaluated.\<close>

definition ex_conn :: FakeConn where
  "ex_conn = \<lparr>db = Some 1, currTx = Some 1\<rparr>"

definition ex_stmt :: "string \<Rightarrow> string \<Rightarrow> FakeStmt" where
  "ex_stmt cmd sql = FakeStmt (Some ex_conn) sql cmd None False [] [] 0"

definition ex_closed_stmt :: FakeStmt where
  "ex_closed_stmt =
     FakeStmt (Some ex_conn) ''UPDATE users SET name = ?'' ''UPDATE'' None True [] [] 1"

definition ex_arg :: "int \<Rightarrow> driver_value \<Rightarrow> NamedValue" where
  "ex_arg n v = \<lparr>Name = [], Ordinal = n, Value = v\<rparr>"

definition ex_world :: "(matcher \<times> FakeResponse) list \<Rightarrow> world" where
  "ex_world ms =
     \<lparr>Mocks = ms, rand_src = (\<lambda>n. 0), rand_calls = 0,
      range_keys = (\<lambda>m. [''id'', ''name'']), trace = [],
      HookBadCommit = None, HookBadRollback = None,
      fmt_rest = (\<lambda>format a. format)\<rparr>"

definition ex_response :: FakeResponse where
  "ex_response =
     \<lparr>Response = [[''id'' \<mapsto> VInt64 1, ''name'' \<mapsto> VString ''a''], [''id'' \<mapsto> VInt64 2]],
      Error = None, Callback = Some 7, LastInsertID = 0, RowsAffected = 3,
      Exceptions = None\<rparr>"

definition ex_fail_response :: FakeResponse where
  "ex_fail_response =
     \<lparr>Response = [], Error = Some (OtherError ''boom''), Callback = Some 7,
      LastInsertID = 5, RowsAffected = 3,
      Exceptions = Some \<lparr>HookQueryBadConnection = Some (\<lambda>u. True),
                          HookExecBadConnection = Some (\<lambda>u. True)\<rparr>\<rparr>"

definition always :: matcher where
  "always sql args = True"

definition exactly :: "string \<Rightarrow> matcher" where
  "exactly pat sql args = (sql = pat)"

definition ex_two_placeholders :: FakeStmt where
  "ex_two_placeholders =
     ex_stmt ''SELECT'' ''SELECT * FROM users WHERE name = ? AND id = ?''"

definition ex_chained_stmt :: FakeStmt where
  "ex_chained_stmt =
     FakeStmt (Some ex_conn) ''SELECT 1'' ''SELECT''
       (Some (FakeStmt None ''SELECT 2'' ''SELECT'' None False [] [] 0)) False [] [] 0"

definition ex_chain_ok :: FakeStmt where
  "ex_chain_ok =
     FakeStmt (Some ex_conn) ''SELECT 1'' ''SELECT''
       (Some (FakeStmt (Some ex_conn) ''SELECT 2'' ''SELECT'' None False [] [] 0))
       True [] [] 0"

section \<open>Closed statements\<close>

lemma run_calls_closed:
  "closed s \<Longrightarrow> run_calls w s cs = (replicate (length cs) (Some errClosed), s, w)"
proof (induction cs)
  case Nil
  then show ?case by simp
next
  case (Cons c cs)
  then show ?case
    by (cases c) (simp_all add: ExecContext_def QueryContext_def error_of_def)
qed

text \<open>
  C5: a call of \<open>ExecContext\<close> or \<open>QueryContext\<close> on a statement whose closed flag is
  set returns the closed-statement error at once. The statement and the world come back
  as they went in: the trace has no new lookup and no new callback invocation, and the
  closed flag is still set, so the same holds for every later call; \<open>run_calls\<close> says it
  for any sequence of calls.
\<close>

theorem closed_statement_rejects_calls:
  "closed s \<Longrightarrow>
     ExecContext w s args = (Inl errClosed, s, w) \<and>
     QueryContext w s args = (Inl errClosed, s, w) \<and>
     run_calls w s cs = (replicate (length cs) (Some errClosed), s, w)"
  by (simp add: ExecContext_def QueryContext_def run_calls_closed)

theorem closed_statement_rejects_calls_witness:
  "closed ex_closed_stmt \<and>
   ExecContext (ex_world [(always, ex_response)]) ex_closed_stmt [ex_arg 1 (VString ''a'')] =
     (Inl errClosed, ex_closed_stmt, ex_world [(always, ex_response)]) \<and>
   QueryContext (ex_world [(always, ex_response)]) ex_closed_stmt [ex_arg 1 (VString ''a'')] =
     (Inl errClosed, ex_closed_stmt, ex_world [(always, ex_response)]) \<and>
   run_calls (ex_world [(always, ex_response)]) ex_closed_stmt
       [ExecCall [], QueryCall [ex_arg 1 (VString ''a'')], ExecCall []] =
     ([Some errClosed, Some errClosed, Some errClosed], ex_closed_stmt,
      ex_world [(always, ex_response)])"
  using closed_statement_rejects_calls
          [of ex_closed_stmt "ex_world [(always, ex_response)]" "[ex_arg 1 (VString ''a'')]"
              "[ExecCall [], QueryCall [ex_arg 1 (VString ''a'')], ExecCall []]"]
  by (simp add: ex_closed_stmt_def)

section \<open>The paths through ExecContext and QueryContext\<close>

lemma stmt_q_set_q [simp]: "stmt_q (set_q v s) = v"
  by (cases s) simp

lemma closed_set_q [simp]: "closed (set_q v s) = closed s"
  by (cases s) simp

lemma command_set_q [simp]: "command (set_q v s) = command s"
  by (cases s) simp

lemma exec_hook_fires_iff:
  "exec_hook_fires r \<longleftrightarrow>
     (\<exists>ex h. Exceptions r = Some ex \<and> HookExecBadConnection ex = Some h \<and> h ())"
  by (auto simp: exec_hook_fires_def split: option.splits)

lemma query_hook_fires_iff:
  "query_hook_fires r \<longleftrightarrow>
     (\<exists>ex h. Exceptions r = Some ex \<and> HookQueryBadConnection ex = Some h \<and> h ())"
  by (auto simp: query_hook_fires_def split: option.splits)

lemma trace_fire_callback:
  "trace (fire_callback resp sql args w) =
     trace w @ (case Callback resp of None \<Rightarrow> [] | Some cb \<Rightarrow> [Called cb sql args])"
  by (simp add: fire_callback_def call_Callback_def split: option.splits)

lemma ExecContext_hook:
  assumes "\<not> closed s" and "exec_hook_fires (FindResponse (Mocks w) (stmt_q s) args)"
  shows "ExecContext w s args =
           (Inl ErrBadConn, s, w\<lparr>trace := trace w @ [Lookup (stmt_q s) args]\<rparr>)"
  using assms by (simp add: ExecContext_def Catcher_FindResponse_def)

lemma ExecContext_error:
  assumes "\<not> closed s" and "resp = FindResponse (Mocks w) (stmt_q s) args"
    and "\<not> exec_hook_fires resp" and "Error resp = Some e"
  shows "ExecContext w s args =
           (Inl e, s, w\<lparr>trace := trace w @ [Lookup (stmt_q s) args]\<rparr>)"
  using assms by (simp add: ExecContext_def Catcher_FindResponse_def)

lemma ExecContext_dispatch:
  assumes "\<not> closed s" and "resp = FindResponse (Mocks w) (stmt_q s) args"
    and "\<not> exec_hook_fires resp" and "Error resp = None"
    and "w2 = fire_callback resp (stmt_q s) args
                (w\<lparr>trace := trace w @ [Lookup (stmt_q s) args]\<rparr>)"
  shows "ExecContext w s args =
           (if command s = ''INSERT'' then
              (if LastInsertID resp = 0
               then (Inr (NewFakeResult (uint (rand_src w (rand_calls w))) 1), s,
                     w2\<lparr>rand_calls := Suc (rand_calls w)\<rparr>)
               else (Inr (NewFakeResult (LastInsertID resp) 1), s, w2))
            else if command s \<in> {''UPDATE'', ''DELETE'', ''MERGE''} then
              (Inr (driver_RowsAffected (RowsAffected resp)), s, w2)
            else
              (Inl (Errorf ''unimplemented statement Exec command type of %q'' (command s)),
               s, w2))"
  using assms
  by (simp add: ExecContext_def Catcher_FindResponse_def rand_Int63_def fire_callback_def
        call_Callback_def split: option.splits)

lemma QueryContext_hook:
  assumes "\<not> closed s" and "sql = substitute w (stmt_q s) args"
    and "query_hook_fires (FindResponse (Mocks w) sql args)"
  shows "QueryContext w s args =
           (Inl ErrBadConn, set_q sql s, w\<lparr>trace := trace w @ [Lookup sql args]\<rparr>)"
  using assms by (simp add: QueryContext_def Catcher_FindResponse_def)

lemma QueryContext_error:
  assumes "\<not> closed s" and "sql = substitute w (stmt_q s) args"
    and "resp = FindResponse (Mocks w) sql args"
    and "\<not> query_hook_fires resp" and "Error resp = Some e"
  shows "QueryContext w s args =
           (Inl e, set_q sql s, w\<lparr>trace := trace w @ [Lookup sql args]\<rparr>)"
  using assms by (simp add: QueryContext_def Catcher_FindResponse_def)

text \<open>
  The success path of \<open>QueryContext\<close>; \<open>ci\<close> is the pair of column indexes and column
  names that the first loop builds.
\<close>

lemma QueryContext_dispatch:
  assumes "\<not> closed s" and "sql = substitute w (stmt_q s) args"
    and "resp = FindResponse (Mocks w) sql args"
    and "\<not> query_hook_fires resp" and "Error resp = None"
    and "ci = (if length (Response resp) > 0
               then collect_columns (range_keys w (Response resp ! 0)) Map.empty []
               else (Map.empty, []))"
  shows "QueryContext w s args =
           (Inr \<lparr>posRow = - 1,
                 rows = [map (\<lambda>rcd. fill_row (snd ci) (fst ci) rcd
                                       (replicate (length (snd ci)) VNil))
                           (Response resp)],
                 cols = snd ci, cursor_colType = [], errPos = - 1,
                 cursor_closed = False\<rparr>,
            set_q sql s,
            fire_callback resp sql args (w\<lparr>trace := trace w @ [Lookup sql args]\<rparr>))"
  using assms
  by (simp add: QueryContext_def Catcher_FindResponse_def Let_def split_beta)

lemma ExecContext_success_trace:
  assumes "\<not> closed s" and "resp = FindResponse (Mocks w) (stmt_q s) args"
    and "\<not> exec_hook_fires resp" and "Error resp = None"
  shows "\<exists>r w'. ExecContext w s args = (r, s, w') \<and>
           trace w' = trace w @ Lookup (stmt_q s) args #
                        (case Callback resp of None \<Rightarrow> []
                         | Some cb \<Rightarrow> [Called cb (stmt_q s) args]) \<and>
           (isl r \<longleftrightarrow> command s \<notin> {''INSERT'', ''UPDATE'', ''DELETE'', ''MERGE''}) \<and>
           (command s \<notin> {''INSERT'', ''UPDATE'', ''DELETE'', ''MERGE''} \<longrightarrow>
              r = Inl (Errorf ''unimplemented statement Exec command type of %q''
                         (command s)))"
  using ExecContext_dispatch [OF assms refl]
  by (auto simp: trace_fire_callback)

lemma QueryContext_success_trace:
  assumes "\<not> closed s" and "sql = substitute w (stmt_q s) args"
    and "resp = FindResponse (Mocks w) sql args"
    and "\<not> query_hook_fires resp" and "Error resp = None"
  shows "\<exists>r w'. QueryContext w s args = (r, set_q sql s, w') \<and>
           trace w' = trace w @ Lookup sql args #
                        (case Callback resp of None \<Rightarrow> [] | Some cb \<Rightarrow> [Called cb sql args]) \<and>
           \<not> isl r"
  using QueryContext_dispatch [OF assms refl]
  by (simp add: trace_fire_callback)

section \<open>Hooks, errors and callbacks\<close>

text \<open>
  C3: on an open statement, when the response found for the call has a bad-connection
  hook for the direction of the call that returns true and also a registered \<open>Error\<close>,
  \<open>ExecContext\<close> and \<open>QueryContext\<close> both return \<open>driver.ErrBadConn\<close> and not the
  registered error. No result is built: the return is the error alone, and the world has
  gained the lookup and nothing else (no callback, no draw from the random source). On
  the query path the response is the one found for the substituted text \<open>sql\<close>.
\<close>

theorem bad_connection_hook_precedes_error:
  assumes "\<not> closed s"
  shows "(exec_hook_fires (FindResponse (Mocks w) (stmt_q s) args) \<and>
          Error (FindResponse (Mocks w) (stmt_q s) args) = Some e \<longrightarrow>
            ExecContext w s args =
              (Inl ErrBadConn, s, w\<lparr>trace := trace w @ [Lookup (stmt_q s) args]\<rparr>)) \<and>
         (sql = substitute w (stmt_q s) args \<and>
          query_hook_fires (FindResponse (Mocks w) sql args) \<and>
          Error (FindResponse (Mocks w) sql args) = Some e \<longrightarrow>
            QueryContext w s args =
              (Inl ErrBadConn, set_q sql s, w\<lparr>trace := trace w @ [Lookup sql args]\<rparr>))"
  using assms by (auto simp: ExecContext_hook QueryContext_hook)

theorem bad_connection_hook_precedes_error_witness:
  "\<not> closed (ex_stmt ''UPDATE'' ''UPDATE users SET name = ?'') \<and>
   exec_hook_fires ex_fail_response \<and> query_hook_fires ex_fail_response \<and>
   Error ex_fail_response = Some (OtherError ''boom'') \<and>
   substitute (ex_world [(always, ex_fail_response)]) ''UPDATE users SET name = ?''
     [ex_arg 1 (VString ''a'')] = ''UPDATE users SET name = a'' \<and>
   fst (ExecContext (ex_world [(always, ex_fail_response)])
          (ex_stmt ''UPDATE'' ''UPDATE users SET name = ?'') [ex_arg 1 (VString ''a'')]) =
     Inl ErrBadConn \<and>
   fst (QueryContext (ex_world [(always, ex_fail_response)])
          (ex_stmt ''UPDATE'' ''UPDATE users SET name = ?'') [ex_arg 1 (VString ''a'')]) =
     Inl ErrBadConn"
  using bad_connection_hook_precedes_error
          [of "ex_stmt ''UPDATE'' ''UPDATE users SET name = ?''"
              "ex_world [(always, ex_fail_response)]" "[ex_arg 1 (VString ''a'')]"
              "OtherError ''boom''" "''UPDATE users SET name = a''"]
  by (simp add: ex_stmt_def ex_world_def always_def ex_fail_response_def ex_arg_def
        exec_hook_fires_def query_hook_fires_def Sprintf_def)

text \<open>
  C4, as stated, fails: \<open>ExecContext\<close> invokes the callback before it looks at the
  command, so a call with a command other than INSERT, UPDATE, DELETE and MERGE returns
  the unimplemented-command error after the callback has run. Here the statement is a
  CREATE and the matched response carries callback 7 and no error.
\<close>

theorem callback_fires_before_unimplemented_error:
  "\<not> closed (ex_stmt ''CREATE'' ''CREATE TABLE users (id INT)'') \<and>
   Callback ex_response = Some 7 \<and> Error ex_response = None \<and>
   fst (ExecContext (ex_world [(always, ex_response)])
          (ex_stmt ''CREATE'' ''CREATE TABLE users (id INT)'') []) =
     Inl (Errorf ''unimplemented statement Exec command type of %q'' ''CREATE'') \<and>
   trace (snd (snd (ExecContext (ex_world [(always, ex_response)])
                      (ex_stmt ''CREATE'' ''CREATE TABLE users (id INT)'') []))) =
     [Lookup ''CREATE TABLE users (id INT)'' [],
      Called 7 ''CREATE TABLE users (id INT)'' []]"
  by (simp add: ExecContext_def Catcher_FindResponse_def ex_stmt_def ex_world_def always_def
        ex_response_def exec_hook_fires_def fire_callback_def call_Callback_def)

text \<open>
  C4, amended: on an open statement the trace gains the lookup, followed by exactly one
  invocation of the response's callback (with the SQL text of the lookup and the
  arguments) when no hook fires and no \<open>Error\<close> is registered, and by nothing when a
  hook fires or an \<open>Error\<close> is registered; in those two cases the call returns
  \<open>ErrBadConn\<close>, respectively the registered error as it is. After the callback
  \<open>QueryContext\<close> always succeeds, and \<open>ExecContext\<close> succeeds exactly for the
  commands INSERT, UPDATE, DELETE and MERGE: for any other command it returns the
  unimplemented-command error built from the command keyword, although the callback has
  been invoked.
\<close>

theorem callback_fires_once_unless_aborted:
  assumes "\<not> closed s"
  shows "(resp = FindResponse (Mocks w) (stmt_q s) args \<longrightarrow>
            (\<exists>r w'. ExecContext w s args = (r, s, w') \<and>
               trace w' = trace w @ Lookup (stmt_q s) args #
                 (if exec_hook_fires resp \<or> Error resp \<noteq> None then []
                  else case Callback resp of None \<Rightarrow> []
                       | Some cb \<Rightarrow> [Called cb (stmt_q s) args]) \<and>
               (exec_hook_fires resp \<longrightarrow> r = Inl ErrBadConn) \<and>
               (\<not> exec_hook_fires resp \<longrightarrow> (\<forall>e. Error resp = Some e \<longrightarrow> r = Inl e)) \<and>
               (\<not> exec_hook_fires resp \<and> Error resp = None \<longrightarrow>
                  (isl r \<longleftrightarrow> command s \<notin> {''INSERT'', ''UPDATE'', ''DELETE'', ''MERGE''}) \<and>
                  (command s \<notin> {''INSERT'', ''UPDATE'', ''DELETE'', ''MERGE''} \<longrightarrow>
                     r = Inl (Errorf ''unimplemented statement Exec command type of %q''
                                (command s)))))) \<and>
         (sql = substitute w (stmt_q s) args \<and>
          resp' = FindResponse (Mocks w) sql args \<longrightarrow>
            (\<exists>r w'. QueryContext w s args = (r, set_q sql s, w') \<and>
               trace w' = trace w @ Lookup sql args #
                 (if query_hook_fires resp' \<or> Error resp' \<noteq> None then []
                  else case Callback resp' of None \<Rightarrow> []
                       | Some cb \<Rightarrow> [Called cb sql args]) \<and>
               (query_hook_fires resp' \<longrightarrow> r = Inl ErrBadConn) \<and>
               (\<not> query_hook_fires resp' \<longrightarrow> (\<forall>e. Error resp' = Some e \<longrightarrow> r = Inl e)) \<and>
               (\<not> query_hook_fires resp' \<and> Error resp' = None \<longrightarrow> \<not> isl r)))"
proof (intro conjI impI)
  assume r: "resp = FindResponse (Mocks w) (stmt_q s) args"
  consider (hook) "exec_hook_fires resp"
    | (error) e where "\<not> exec_hook_fires resp" "Error resp = Some e"
    | (ok) "\<not> exec_hook_fires resp" "Error resp = None"
    by (cases "Error resp") auto
  then show "\<exists>r w'. ExecContext w s args = (r, s, w') \<and>
               trace w' = trace w @ Lookup (stmt_q s) args #
                 (if exec_hook_fires resp \<or> Error resp \<noteq> None then []
                  else case Callback resp of None \<Rightarrow> []
                       | Some cb \<Rightarrow> [Called cb (stmt_q s) args]) \<and>
               (exec_hook_fires resp \<longrightarrow> r = Inl ErrBadConn) \<and>
               (\<not> exec_hook_fires resp \<longrightarrow> (\<forall>e. Error resp = Some e \<longrightarrow> r = Inl e)) \<and>
               (\<not> exec_hook_fires resp \<and> Error resp = None \<longrightarrow>
                  (isl r \<longleftrightarrow> command s \<notin> {''INSERT'', ''UPDATE'', ''DELETE'', ''MERGE''}) \<and>
                  (command s \<notin> {''INSERT'', ''UPDATE'', ''DELETE'', ''MERGE''} \<longrightarrow>
                     r = Inl (Errorf ''unimplemented statement Exec command type of %q''
                                (command s))))"
  proof cases
    case hook
    then show ?thesis using ExecContext_hook [OF assms, of w args] r by simp
  next
    case error
    then show ?thesis using ExecContext_error [OF assms r] by simp
  next
    case ok
    then show ?thesis using ExecContext_success_trace [OF assms r] by simp
  qed
next
  assume a: "sql = substitute w (stmt_q s) args \<and> resp' = FindResponse (Mocks w) sql args"
  then have sub: "sql = substitute w (stmt_q s) args"
    and r: "resp' = FindResponse (Mocks w) sql args" by simp_all
  consider (hook) "query_hook_fires resp'"
    | (error) e where "\<not> query_hook_fires resp'" "Error resp' = Some e"
    | (ok) "\<not> query_hook_fires resp'" "Error resp' = None"
    by (cases "Error resp'") auto
  then show "\<exists>r w'. QueryContext w s args = (r, set_q sql s, w') \<and>
               trace w' = trace w @ Lookup sql args #
                 (if query_hook_fires resp' \<or> Error resp' \<noteq> None then []
                  else case Callback resp' of None \<Rightarrow> []
                       | Some cb \<Rightarrow> [Called cb sql args]) \<and>
               (query_hook_fires resp' \<longrightarrow> r = Inl ErrBadConn) \<and>
               (\<not> query_hook_fires resp' \<longrightarrow> (\<forall>e. Error resp' = Some e \<longrightarrow> r = Inl e)) \<and>
               (\<not> query_hook_fires resp' \<and> Error resp' = None \<longrightarrow> \<not> isl r)"
  proof cases
    case hook
    then show ?thesis using QueryContext_hook [OF assms sub] r by simp
  next
    case error
    then show ?thesis using QueryContext_error [OF assms sub r] by simp
  next
    case ok
    then show ?thesis using QueryContext_success_trace [OF assms sub r] by simp
  qed
qed

theorem callback_fires_once_unless_aborted_witness:
  "\<not> closed (ex_stmt ''UPDATE'' ''UPDATE users SET name = ?'') \<and>
   substitute (ex_world [(always, ex_response)]) ''UPDATE users SET name = ?''
     [ex_arg 1 (VString ''a'')] = ''UPDATE users SET name = a'' \<and>
   trace (snd (snd (ExecContext (ex_world [(always, ex_response)])
            (ex_stmt ''UPDATE'' ''UPDATE users SET name = ?'') [ex_arg 1 (VString ''a'')]))) =
     [Lookup ''UPDATE users SET name = ?'' [ex_arg 1 (VString ''a'')],
      Called 7 ''UPDATE users SET name = ?'' [ex_arg 1 (VString ''a'')]] \<and>
   trace (snd (snd (QueryContext (ex_world [(always, ex_response)])
            (ex_stmt ''UPDATE'' ''UPDATE users SET name = ?'') [ex_arg 1 (VString ''a'')]))) =
     [Lookup ''UPDATE users SET name = a'' [ex_arg 1 (VString ''a'')],
      Called 7 ''UPDATE users SET name = a'' [ex_arg 1 (VString ''a'')]] \<and>
   trace (snd (snd (ExecContext (ex_world [(always, ex_fail_response)])
            (ex_stmt ''UPDATE'' ''UPDATE users SET name = ?'') [ex_arg 1 (VString ''a'')]))) =
     [Lookup ''UPDATE users SET name = ?'' [ex_arg 1 (VString ''a'')]] \<and>
   fst (ExecContext (ex_world [(always, ex_response)]) (ex_stmt ''SELECT'' ''SELECT 1'') []) =
     Inl (Errorf ''unimplemented statement Exec command type of %q'' ''SELECT'') \<and>
   trace (snd (snd (ExecContext (ex_world [(always, ex_response)])
                      (ex_stmt ''SELECT'' ''SELECT 1'') []))) =
     [Lookup ''SELECT 1'' [], Called 7 ''SELECT 1'' []]"
  using callback_fires_once_unless_aborted
          [of "ex_stmt ''UPDATE'' ''UPDATE users SET name = ?''" ex_response
              "ex_world [(always, ex_response)]" "[ex_arg 1 (VString ''a'')]"
              "''UPDATE users SET name = a''" ex_response]
        callback_fires_once_unless_aborted
          [of "ex_stmt ''UPDATE'' ''UPDATE users SET name = ?''" ex_fail_response
              "ex_world [(always, ex_fail_response)]" "[ex_arg 1 (VString ''a'')]"
              "''UPDATE users SET name = a''" ex_fail_response]
        callback_fires_once_unless_aborted
          [of "ex_stmt ''SELECT'' ''SELECT 1''" ex_response
              "ex_world [(always, ex_response)]" "[]" "''SELECT 1''" ex_response]
  by (auto simp: ex_stmt_def ex_world_def always_def ex_response_def ex_fail_response_def
        ex_arg_def exec_hook_fires_def query_hook_fires_def Sprintf_def)

section \<open>Unmatched SQL text\<close>

lemma FindResponse_unmatched:
  "\<forall>(m, r) \<in> set ms. \<not> m sql args \<Longrightarrow> FindResponse ms sql args = default_response"
  by (induction ms) auto

lemma default_response_simps [simp]:
  "Response default_response = []" "Error default_response = None"
  "Callback default_response = None" "LastInsertID default_response = 0"
  "RowsAffected default_response = 0" "\<not> exec_hook_fires default_response"
  "\<not> query_hook_fires default_response"
  by (simp_all add: default_response_def exec_hook_fires_def query_hook_fires_def)

text \<open>
  C1, as stated, fails on the exec path: with nothing registered, \<open>ExecContext\<close> on a
  CREATE statement returns the unimplemented-command error, and on an INSERT statement it
  reports one row affected, not zero.
\<close>

theorem unmatched_exec_returns_error:
  "Mocks (ex_world []) = [] \<and>
   \<not> closed (ex_stmt ''CREATE'' ''CREATE TABLE users (id INT)'') \<and>
   fst (ExecContext (ex_world []) (ex_stmt ''CREATE'' ''CREATE TABLE users (id INT)'') []) =
     Inl (Errorf ''unimplemented statement Exec command type of %q'' ''CREATE'') \<and>
   fst (ExecContext (ex_world []) (ex_stmt ''INSERT'' ''INSERT INTO users VALUES (1)'') []) =
     Inr (FakeResult 0 1) \<and>
   Result_RowsAffected (FakeResult 0 1) = Inr 1"
  by (simp add: ExecContext_def Catcher_FindResponse_def ex_stmt_def ex_world_def
        fire_callback_def rand_Int63_def NewFakeResult_def)

text \<open>
  C1, amended: for an open statement and an SQL text that no registered expectation
  matches, \<open>QueryContext\<close> returns no error and a cursor with no columns and zero rows;
  \<open>ExecContext\<close> returns a result with zero rows affected when the command is UPDATE,
  DELETE or MERGE, a result with one row affected and an id drawn from the random source
  when the command is INSERT, and the unimplemented-command error for every other
  command. On the query path the text that is matched is the substituted text \<open>sql\<close>.
\<close>

theorem unmatched_sql_default_result:
  assumes "\<not> closed s"
  shows "((\<forall>(m, r) \<in> set (Mocks w). \<not> m (stmt_q s) args) \<longrightarrow>
            fst (ExecContext w s args) =
              (if command s = ''INSERT''
               then Inr (NewFakeResult (uint (rand_src w (rand_calls w))) 1)
               else if command s \<in> {''UPDATE'', ''DELETE'', ''MERGE''}
               then Inr (driver_RowsAffected 0)
               else Inl (Errorf ''unimplemented statement Exec command type of %q''
                           (command s)))) \<and>
         (sql = substitute w (stmt_q s) args \<and>
          (\<forall>(m, r) \<in> set (Mocks w). \<not> m sql args) \<longrightarrow>
            QueryContext w s args =
              (Inr \<lparr>posRow = - 1, rows = [[]], cols = [], cursor_colType = [],
                    errPos = - 1, cursor_closed = False\<rparr>,
               set_q sql s, w\<lparr>trace := trace w @ [Lookup sql args]\<rparr>))"
proof (intro conjI impI)
  assume un: "\<forall>(m, r) \<in> set (Mocks w). \<not> m (stmt_q s) args"
  have d: "default_response = FindResponse (Mocks w) (stmt_q s) args"
    using FindResponse_unmatched [OF un] by simp
  show "fst (ExecContext w s args) =
              (if command s = ''INSERT''
               then Inr (NewFakeResult (uint (rand_src w (rand_calls w))) 1)
               else if command s \<in> {''UPDATE'', ''DELETE'', ''MERGE''}
               then Inr (driver_RowsAffected 0)
               else Inl (Errorf ''unimplemented statement Exec command type of %q''
                           (command s)))"
    using ExecContext_dispatch [OF assms d _ _ refl] by simp
next
  assume a: "sql = substitute w (stmt_q s) args \<and>
          (\<forall>(m, r) \<in> set (Mocks w). \<not> m sql args)"
  from a have sub: "sql = substitute w (stmt_q s) args" by (rule conjunct1)
  from a have un: "\<forall>(m, r) \<in> set (Mocks w). \<not> m sql args" by (rule conjunct2)
  have d: "default_response = FindResponse (Mocks w) sql args"
    by (rule FindResponse_unmatched [OF un, symmetric])
  show "QueryContext w s args =
              (Inr \<lparr>posRow = - 1, rows = [[]], cols = [], cursor_colType = [],
                    errPos = - 1, cursor_closed = False\<rparr>,
               set_q sql s, w\<lparr>trace := trace w @ [Lookup sql args]\<rparr>)"
    using QueryContext_dispatch [OF assms sub d _ _ refl] by (simp add: fire_callback_def)
qed

theorem unmatched_sql_default_result_witness:
  "\<not> closed (ex_stmt ''UPDATE'' ''UPDATE users SET name = ?'') \<and>
   \<not> exactly ''SELECT 1'' ''UPDATE users SET name = ?'' [ex_arg 1 (VString ''a'')] \<and>
   \<not> exactly ''SELECT 1'' ''UPDATE users SET name = a'' [ex_arg 1 (VString ''a'')] \<and>
   substitute (ex_world [(exactly ''SELECT 1'', ex_response)]) ''UPDATE users SET name = ?''
     [ex_arg 1 (VString ''a'')] = ''UPDATE users SET name = a'' \<and>
   fst (ExecContext (ex_world [(exactly ''SELECT 1'', ex_response)])
          (ex_stmt ''UPDATE'' ''UPDATE users SET name = ?'') [ex_arg 1 (VString ''a'')]) =
     Inr (driver_RowsAffected 0) \<and>
   fst (QueryContext (ex_world [(exactly ''SELECT 1'', ex_response)])
          (ex_stmt ''UPDATE'' ''UPDATE users SET name = ?'') [ex_arg 1 (VString ''a'')]) =
     Inr \<lparr>posRow = - 1, rows = [[]], cols = [], cursor_colType = [],
          errPos = - 1, cursor_closed = False\<rparr>"
  using unmatched_sql_default_result
          [of "ex_stmt ''UPDATE'' ''UPDATE users SET name = ?''"
              "ex_world [(exactly ''SELECT 1'', ex_response)]" "[ex_arg 1 (VString ''a'')]"
              "''UPDATE users SET name = a''"]
  by (simp add: ex_stmt_def ex_world_def exactly_def ex_arg_def Sprintf_def)

section \<open>Results of the exec path\<close>

text \<open>
  C7: on an open statement, when the response found for the call lets the call through
  (no exec hook fires and no \<open>Error\<close> is registered), \<open>ExecContext\<close> with command UPDATE,
  DELETE or MERGE returns the result \<open>driver.RowsAffected\<close> of the registered
  \<open>RowsAffected\<close> value, whose rows-affected accessor gives exactly that value (a field
  that was never set holds zero), and with any command other than these and INSERT it
  returns the unimplemented-command error built from the command keyword.
\<close>

theorem exec_rows_affected_or_unimplemented:
  assumes "\<not> closed s" and "resp = FindResponse (Mocks w) (stmt_q s) args"
    and "\<not> exec_hook_fires resp" and "Error resp = None"
  shows "(command s \<in> {''UPDATE'', ''DELETE'', ''MERGE''} \<longrightarrow>
            fst (ExecContext w s args) = Inr (driver_RowsAffected (RowsAffected resp)) \<and>
            Result_RowsAffected (driver_RowsAffected (RowsAffected resp)) =
              Inr (RowsAffected resp)) \<and>
         (command s \<notin> {''INSERT'', ''UPDATE'', ''DELETE'', ''MERGE''} \<longrightarrow>
            fst (ExecContext w s args) =
              Inl (Errorf ''unimplemented statement Exec command type of %q'' (command s)))"
  using ExecContext_dispatch [OF assms refl] by auto

theorem exec_rows_affected_or_unimplemented_witness:
  "\<not> closed (ex_stmt ''DELETE'' ''DELETE FROM users'') \<and>
   \<not> exec_hook_fires ex_response \<and> Error ex_response = None \<and>
   RowsAffected ex_response = 3 \<and>
   fst (ExecContext (ex_world [(always, ex_response)])
          (ex_stmt ''DELETE'' ''DELETE FROM users'') []) = Inr (driver_RowsAffected 3) \<and>
   fst (ExecContext (ex_world [(always, ex_response)])
          (ex_stmt ''SELECT'' ''SELECT 1'') []) =
     Inl (Errorf ''unimplemented statement Exec command type of %q'' ''SELECT'')"
  using exec_rows_affected_or_unimplemented
          [of "ex_stmt ''DELETE'' ''DELETE FROM users''" ex_response
              "ex_world [(always, ex_response)]" "[]"]
        exec_rows_affected_or_unimplemented
          [of "ex_stmt ''SELECT'' ''SELECT 1''" ex_response
              "ex_world [(always, ex_response)]" "[]"]
  by (simp add: ex_stmt_def ex_world_def always_def ex_response_def exec_hook_fires_def)

text \<open>
  C6, as stated, fails: the generated id is whatever \<open>rand.Int63\<close> returns, and that
  may be zero. Here the random source gives 0 and the registered \<open>LastInsertID\<close> is 0.
\<close>

theorem insert_generated_id_may_be_zero:
  "\<not> closed (ex_stmt ''INSERT'' ''INSERT INTO users VALUES (1)'') \<and>
   LastInsertID ex_response = 0 \<and>
   fst (ExecContext (ex_world [(always, ex_response)])
          (ex_stmt ''INSERT'' ''INSERT INTO users VALUES (1)'') []) = Inr (FakeResult 0 1) \<and>
   Result_LastInsertId (FakeResult 0 1) = Inr 0"
  by (simp add: ExecContext_def Catcher_FindResponse_def ex_stmt_def ex_world_def always_def
        ex_response_def exec_hook_fires_def fire_callback_def call_Callback_def rand_Int63_def
        NewFakeResult_def)

text \<open>
  C6, amended: on an open INSERT statement, when the response found for the call lets
  the call through, \<open>ExecContext\<close> returns a result with one row affected; its
  last-insert-id is the registered \<open>LastInsertID\<close> when that is not zero (the random
  source is not touched), and otherwise the next value of the random source, drawn once
  per call: some value from 0 up to but not including \<open>2 ^ 63\<close>, zero not excluded.
\<close>

theorem insert_id_registered_or_drawn:
  assumes "\<not> closed s" and "command s = ''INSERT''"
    and "resp = FindResponse (Mocks w) (stmt_q s) args"
    and "\<not> exec_hook_fires resp" and "Error resp = None"
  shows "\<exists>r w'. ExecContext w s args = (Inr r, s, w') \<and>
           Result_RowsAffected r = Inr 1 \<and>
           (LastInsertID resp \<noteq> 0 \<longrightarrow>
              Result_LastInsertId r = Inr (LastInsertID resp) \<and> rand_calls w' = rand_calls w) \<and>
           (LastInsertID resp = 0 \<longrightarrow>
              Result_LastInsertId r = Inr (uint (rand_src w (rand_calls w))) \<and>
              0 \<le> uint (rand_src w (rand_calls w)) \<and>
              uint (rand_src w (rand_calls w)) < 2 ^ 63 \<and>
              rand_calls w' = Suc (rand_calls w))"
proof -
  have b: "uint (rand_src w (rand_calls w)) < 2 ^ 63"
    using uint_lt2p [of "rand_src w (rand_calls w)"] by simp
  have c: "rand_calls (fire_callback resp (stmt_q s) args
                         (w\<lparr>trace := trace w @ [Lookup (stmt_q s) args]\<rparr>)) = rand_calls w"
    by (simp add: fire_callback_def call_Callback_def split: option.splits)
  show ?thesis
    using ExecContext_dispatch [OF assms(1) assms(3-5) refl] assms(2) b c
    by (simp add: NewFakeResult_def)
qed

theorem insert_id_registered_or_drawn_witness:
  "\<not> closed (ex_stmt ''INSERT'' ''INSERT INTO users VALUES (1)'') \<and>
   command (ex_stmt ''INSERT'' ''INSERT INTO users VALUES (1)'') = ''INSERT'' \<and>
   \<not> exec_hook_fires ex_response \<and> Error ex_response = None \<and>
   fst (ExecContext ((ex_world [(always, ex_response)])\<lparr>rand_src := (\<lambda>n. 42)\<rparr>)
          (ex_stmt ''INSERT'' ''INSERT INTO users VALUES (1)'') []) = Inr (FakeResult 42 1) \<and>
   fst (ExecContext (ex_world [(always, ex_response\<lparr>LastInsertID := 5\<rparr>)])
          (ex_stmt ''INSERT'' ''INSERT INTO users VALUES (1)'') []) = Inr (FakeResult 5 1)"
  using insert_id_registered_or_drawn
          [of "ex_stmt ''INSERT'' ''INSERT INTO users VALUES (1)''"
              ex_response "(ex_world [(always, ex_response)])\<lparr>rand_src := (\<lambda>n. 42)\<rparr>" "[]"]
        insert_id_registered_or_drawn
          [of "ex_stmt ''INSERT'' ''INSERT INTO users VALUES (1)''"
              "ex_response\<lparr>LastInsertID := 5\<rparr>"
              "ex_world [(always, ex_response\<lparr>LastInsertID := 5\<rparr>)]" "[]"]
  by (auto simp: ex_stmt_def ex_world_def always_def ex_response_def exec_hook_fires_def
        elim!: Result_LastInsertId.elims Result_RowsAffected.elims)

section \<open>Rows and columns of the query path\<close>

lemma collect_columns_names:
  "snd (collect_columns ks idx names) = names @ ks"
  by (induction ks arbitrary: idx names) simp_all

lemma collect_columns_other:
  "k \<notin> set ks \<Longrightarrow> fst (collect_columns ks idx names) k = idx k"
  by (induction ks arbitrary: idx names) simp_all

lemma collect_columns_index:
  "distinct ks \<Longrightarrow> j < length ks \<Longrightarrow>
     fst (collect_columns ks idx names) (ks ! j) = Some (length names + j)"
proof (induction ks arbitrary: idx names j)
  case Nil
  then show ?case by simp
next
  case (Cons k ks)
  show ?case
  proof (cases j)
    case 0
    with Cons.prems show ?thesis by (simp add: collect_columns_other)
  next
    case (Suc i)
    with Cons.prems have "distinct ks" and "i < length ks" by simp_all
    then have "fst (collect_columns ks (idx(k \<mapsto> length names)) (names @ [k])) (ks ! i) =
                 Some (length (names @ [k]) + i)"
      by (rule Cons.IH)
    with Suc show ?thesis by simp
  qed
qed

lemma collect_columns_bound:
  "(\<And>c i. idx c = Some i \<Longrightarrow> i < length names) \<Longrightarrow>
     fst (collect_columns ks idx names) c = Some i \<Longrightarrow> i < length names + length ks"
proof (induction ks arbitrary: idx names)
  case Nil
  then show ?case by simp
next
  case (Cons k ks)
  have "i < length (names @ [k]) + length ks"
  proof (rule Cons.IH [of "idx(k \<mapsto> length names)" "names @ [k]"])
    fix c' i' assume "(idx(k \<mapsto> length names)) c' = Some i'"
    then show "i' < length (names @ [k])"
      using Cons.prems(1) [of c' i'] by (auto split: if_splits simp: less_Suc_eq)
  next
    show "fst (collect_columns ks (idx(k \<mapsto> length names)) (names @ [k])) c = Some i"
      using Cons.prems(2) by simp
  qed
  then show ?case by simp
qed

text \<open>
  The assignment \<open>oneRow.cols[colIndexes[col]] = record[col]\<close> never leaves the row:
  whatever order the keys come in, every column of \<open>columnNames\<close> has an index below
  the number of columns. So the list update of \<open>fill_row\<close> is the slice assignment of
  the source, which would panic only outside the range.
\<close>

lemma fill_row_index_in_range:
  assumes "c \<in> set (snd (collect_columns ks Map.empty []))"
  shows "index_of (fst (collect_columns ks Map.empty [])) c
           < length (snd (collect_columns ks Map.empty []))"
proof (cases "fst (collect_columns ks Map.empty []) c")
  case None
  from assms have "0 < length ks" by (cases ks) (simp_all add: collect_columns_names)
  with None show ?thesis by (simp add: index_of_def collect_columns_names)
next
  case (Some i)
  then have "i < length ks"
    using collect_columns_bound [of Map.empty "[]" ks c i] by simp
  with Some show ?thesis by (simp add: index_of_def collect_columns_names)
qed

lemma fill_row_suffix:
  "length r = length (pre @ cs) \<Longrightarrow>
   (\<And>j. j < length cs \<Longrightarrow> index_of idx (cs ! j) = length pre + j) \<Longrightarrow>
     fill_row cs idx rcd r = take (length pre) r @ map (value_of rcd) cs"
proof (induction cs arbitrary: pre r)
  case Nil
  then show ?case by simp
next
  case (Cons c cs)
  have i: "index_of idx c = length pre"
    using Cons.prems(2) [of 0] by simp
  have l: "length (r[length pre := value_of rcd c]) = length ((pre @ [c]) @ cs)"
    using Cons.prems(1) by simp
  have "fill_row cs idx rcd (r[length pre := value_of rcd c]) =
          take (length (pre @ [c])) (r[length pre := value_of rcd c]) @ map (value_of rcd) cs"
  proof (rule Cons.IH [OF l])
    fix j assume "j < length cs"
    then show "index_of idx (cs ! j) = length (pre @ [c]) + j"
      using Cons.prems(2) [of "Suc j"] by simp
  qed
  moreover have "take (Suc (length pre)) (r[length pre := value_of rcd c]) =
                 take (length pre) r @ [value_of rcd c]"
    using Cons.prems(1) by (simp add: take_Suc_conv_app_nth)
  ultimately show ?case using i by simp
qed

lemma fill_row_collect:
  assumes "distinct ks"
  shows "fill_row ks (fst (collect_columns ks Map.empty [])) rcd (replicate (length ks) VNil) =
           map (value_of rcd) ks"
  using fill_row_suffix [of "replicate (length ks) VNil" "[]" ks
          "fst (collect_columns ks Map.empty [])" rcd]
    collect_columns_index [OF assms, of _ Map.empty "[]"]
  by (simp add: index_of_def)

text \<open>
  C2, as stated, fails: a record is a Go map, which keeps no insertion order, and the
  column list is the order in which the \<open>range\<close> loop happens to enumerate the keys of
  the first record. For one and the same registered response (first record with the keys
  \<open>id\<close> and \<open>name\<close>) the two enumerations give two different column lists, so the
  column list is not a function of the record, whichever order its keys were inserted in.
\<close>

theorem column_order_is_enumeration_order:
  "fst (QueryContext (ex_world [(always, ex_response)])
          (ex_stmt ''SELECT'' ''SELECT * FROM users'') []) =
     Inr \<lparr>posRow = - 1,
          rows = [[[VInt64 1, VString ''a''], [VInt64 2, VNil]]],
          cols = [''id'', ''name''], cursor_colType = [], errPos = - 1,
          cursor_closed = False\<rparr> \<and>
   fst (QueryContext
          ((ex_world [(always, ex_response)])\<lparr>range_keys := (\<lambda>m. [''name'', ''id''])\<rparr>)
          (ex_stmt ''SELECT'' ''SELECT * FROM users'') []) =
     Inr \<lparr>posRow = - 1,
          rows = [[[VString ''a'', VInt64 1], [VNil, VInt64 2]]],
          cols = [''name'', ''id''], cursor_colType = [], errPos = - 1,
          cursor_closed = False\<rparr>"
  by (simp add: QueryContext_def Catcher_FindResponse_def ex_stmt_def ex_world_def always_def
        ex_response_def query_hook_fires_def fire_callback_def call_Callback_def
        index_of_def value_of_def)

text \<open>
  C2, amended: for an open statement and a response with a non-empty list of records
  that lets the call through, \<open>QueryContext\<close> returns a cursor whose column list is the
  enumeration \<open>ks\<close> of the first record's keys as the \<open>range\<close> loop yields it (every
  key once, in an order the language leaves open, not an insertion order); there is one
  row per record, and row \<open>i\<close> holds at the position of column \<open>c\<close> the value of
  record \<open>i\<close> for \<open>c\<close> when \<open>c\<close> is a key of record \<open>i\<close>, and nil otherwise.
\<close>

theorem query_rows_follow_enumerated_columns:
  assumes "\<not> closed s" and "sql = substitute w (stmt_q s) args"
    and "resp = FindResponse (Mocks w) sql args"
    and "\<not> query_hook_fires resp" and "Error resp = None"
    and "Response resp \<noteq> []"
    and "ks = range_keys w (Response resp ! 0)"
    and "distinct ks" and "set ks = dom (Response resp ! 0)"
  shows "\<exists>cursor w'.
           QueryContext w s args = (Inr cursor, set_q sql s, w') \<and>
           cols cursor = ks \<and>
           set (cols cursor) = dom (Response resp ! 0) \<and>
           rows cursor = [map (\<lambda>rcd. map (value_of rcd) ks) (Response resp)] \<and>
           (\<forall>i < length (Response resp). \<forall>j < length ks.
              rows cursor ! 0 ! i ! j =
                (case (Response resp ! i) (ks ! j) of None \<Rightarrow> VNil | Some v \<Rightarrow> v))"
  using QueryContext_dispatch [OF assms(1-5) refl] assms(6-9)
  by (simp add: collect_columns_names fill_row_collect value_of_def)

theorem query_rows_follow_enumerated_columns_witness:
  "\<not> closed (ex_stmt ''SELECT'' ''SELECT * FROM users'') \<and>
   substitute (ex_world [(always, ex_response)]) ''SELECT * FROM users'' [] =
     ''SELECT * FROM users'' \<and>
   \<not> query_hook_fires ex_response \<and> Error ex_response = None \<and>
   Response ex_response \<noteq> [] \<and>
   distinct [''id'', ''name''] \<and> set [''id'', ''name''] = dom (Response ex_response ! 0) \<and>
   (case fst (QueryContext (ex_world [(always, ex_response)])
                (ex_stmt ''SELECT'' ''SELECT * FROM users'') []) of
      Inl e \<Rightarrow> None
    | Inr c \<Rightarrow> Some (cols c, rows c)) =
     Some ([''id'', ''name''], [[[VInt64 1, VString ''a''], [VInt64 2, VNil]]])"
proof -
  have h1: "\<not> closed (ex_stmt ''SELECT'' ''SELECT * FROM users'')"
    by (simp add: ex_stmt_def)
  have h2: "''SELECT * FROM users'' =
              substitute (ex_world [(always, ex_response)])
                (stmt_q (ex_stmt ''SELECT'' ''SELECT * FROM users'')) []"
    by (simp add: ex_stmt_def)
  have h3: "ex_response =
              FindResponse (Mocks (ex_world [(always, ex_response)])) ''SELECT * FROM users'' []"
    by (simp add: ex_world_def always_def)
  have h4: "\<not> query_hook_fires ex_response"
    by (simp add: query_hook_fires_def ex_response_def)
  have h5: "Error ex_response = None" by (simp add: ex_response_def)
  have h6: "Response ex_response \<noteq> []" by (simp add: ex_response_def)
  have h7: "[''id'', ''name''] =
              range_keys (ex_world [(always, ex_response)]) (Response ex_response ! 0)"
    by (simp add: ex_world_def)
  have h8: "distinct [''id'', ''name'']" by simp
  have h9: "set [''id'', ''name''] = dom (Response ex_response ! 0)"
    by (auto simp: ex_response_def)
  have v: "map (\<lambda>rcd. map (value_of rcd) [''id'', ''name'']) (Response ex_response) =
             [[VInt64 1, VString ''a''], [VInt64 2, VNil]]"
    by (simp add: ex_response_def value_of_def)
  from query_rows_follow_enumerated_columns [OF h1 h2 h3 h4 h5 h6 h7 h8 h9]
  obtain cursor w' where
    q: "QueryContext (ex_world [(always, ex_response)])
          (ex_stmt ''SELECT'' ''SELECT * FROM users'') [] =
        (Inr cursor, set_q ''SELECT * FROM users''
                       (ex_stmt ''SELECT'' ''SELECT * FROM users''), w')"
    and c: "cols cursor = [''id'', ''name'']"
    and r: "rows cursor = [map (\<lambda>rcd. map (value_of rcd) [''id'', ''name''])
                             (Response ex_response)]"
    by blast
  show ?thesis
    using h1 h4 h5 h6 h9 v by (simp add: q c r)
qed

section \<open>The rewritten SQL text\<close>

text \<open>
  Where the loop of \<open>QueryContext\<close> does what the comment says: when the SQL text has
  no \<open>%\<close>, the rendered arguments have neither \<open>?\<close> nor \<open>%\<close>, and there are at least
  as many placeholders as arguments, the rewritten text is the original text with its
  first placeholders filled, in order, with the rendered arguments.
\<close>

lemma doPrintf_plain:
  "CHR ''%'' \<notin> set xs \<Longrightarrow> doPrintf xs a used = Some (xs @ (if used then [] else extra a))"
  by (induction xs) auto

lemma doPrintf_verb:
  "CHR ''%'' \<notin> set pre \<Longrightarrow> CHR ''%'' \<notin> set post \<Longrightarrow>
     doPrintf (pre @ ''%v'' @ post) a False = Some (pre @ fmt_v a @ post)"
  by (induction pre) (auto simp: doPrintf_plain)

lemma replace_first_split:
  "old \<notin> set pre \<Longrightarrow> replace_first old new (pre @ old # post) = pre @ new @ post"
  by (induction pre) auto

lemma Sprintf_placeholder:
  assumes "CHR ''%'' \<notin> set pre" and "CHR ''%'' \<notin> set post" and "CHR ''?'' \<notin> set pre"
  shows "Sprintf w (replace_first (CHR ''?'') ''%v'' (pre @ CHR ''?'' # post)) a =
           pre @ fmt_v a @ post"
  using assms doPrintf_verb [of pre post a]
  by (simp add: Sprintf_def replace_first_split)

lemma fill_placeholders_split:
  "CHR ''?'' \<notin> set pre \<Longrightarrow>
     fill_placeholders (pre @ CHR ''?'' # post) (t # ts) = pre @ t @ fill_placeholders post ts"
  by (induction pre) auto

lemma substitute_prefix:
  assumes "CHR ''%'' \<notin> set pre" and "CHR ''?'' \<notin> set pre"
    and "CHR ''%'' \<notin> set sql"
    and "\<forall>a \<in> set args. CHR ''?'' \<notin> set (fmt_v (Value a)) \<and> CHR ''%'' \<notin> set (fmt_v (Value a))"
    and "length args \<le> count_list sql (CHR ''?'')"
  shows "substitute w (pre @ sql) args =
           pre @ fill_placeholders sql (map (\<lambda>a. fmt_v (Value a)) args)"
  using assms
proof (induction args arbitrary: pre sql)
  case Nil
  then show ?case by simp
next
  case (Cons a as)
  from Cons.prems(5) have "CHR ''?'' \<in> set sql"
    by (cases "CHR ''?'' \<in> set sql") simp_all
  then obtain p post where sp: "sql = p @ CHR ''?'' # post" and np: "CHR ''?'' \<notin> set p"
    by (meson split_list_first)
  let ?t = "fmt_v (Value a)"
  have pp: "CHR ''%'' \<notin> set p" "CHR ''%'' \<notin> set post"
    using Cons.prems(3) sp by simp_all
  have ta: "CHR ''?'' \<notin> set ?t" "CHR ''%'' \<notin> set ?t"
    using Cons.prems(4) by simp_all
  have step: "Sprintf w (replace_first (CHR ''?'') ''%v'' (pre @ sql)) (Value a) =
                (pre @ p @ ?t) @ post"
    using Sprintf_placeholder [of "pre @ p" post w "Value a"] Cons.prems(1,2) pp np sp
    by simp
  have cnt: "length as \<le> count_list post (CHR ''?'')"
    using Cons.prems(5) sp np by simp
  have "substitute w ((pre @ p @ ?t) @ post) as =
          (pre @ p @ ?t) @ fill_placeholders post (map (\<lambda>a. fmt_v (Value a)) as)"
  proof (rule Cons.IH)
    show "CHR ''%'' \<notin> set (pre @ p @ ?t)" using Cons.prems(1) pp ta by simp
    show "CHR ''?'' \<notin> set (pre @ p @ ?t)" using Cons.prems(2) np ta by simp
    show "CHR ''%'' \<notin> set post" by (rule pp(2))
    show "\<forall>a \<in> set as. CHR ''?'' \<notin> set (fmt_v (Value a)) \<and> CHR ''%'' \<notin> set (fmt_v (Value a))"
      using Cons.prems(4) by simp
    show "length as \<le> count_list post (CHR ''?'')" by (rule cnt)
  qed
  then show ?case
    using step sp np by (simp add: fill_placeholders_split)
qed

lemma substitute_positional:
  assumes "CHR ''%'' \<notin> set sql"
    and "\<forall>a \<in> set args. CHR ''?'' \<notin> set (fmt_v (Value a)) \<and> CHR ''%'' \<notin> set (fmt_v (Value a))"
    and "length args \<le> count_list sql (CHR ''?'')"
  shows "substitute w sql args = fill_placeholders sql (map (\<lambda>a. fmt_v (Value a)) args)"
  using substitute_prefix [of "[]" sql args w] assms by simp

text \<open>
  C8: the query path rewrites the stored text by handing it to \<open>Sprintf\<close> as a format,
  once per argument, so the text an earlier argument put in is scanned again. With the
  arguments \<open>who?\<close> and 7 the second round replaces the question mark of the first
  argument's text: the second placeholder stays, and 7 lands inside the first value,
  where filling the placeholders in order gives \<open>name = who? AND id = 7\<close>. A \<open>%\<close> of
  the SQL text is read as a verb: \<open>%%\<close> comes out as a single \<open>%\<close>. \<open>ExecContext\<close>
  on the same statement and arguments leaves the statement as it is.
\<close>

theorem substitution_rescans_inserted_text:
  "stmt_q (fst (snd (QueryContext (ex_world []) ex_two_placeholders
                       [ex_arg 1 (VString ''who?''), ex_arg 2 (VInt64 7)]))) =
     ''SELECT * FROM users WHERE name = who7 AND id = ?'' \<and>
   fill_placeholders (stmt_q ex_two_placeholders) [''who?'', ''7''] =
     ''SELECT * FROM users WHERE name = who? AND id = 7'' \<and>
   substitute (ex_world []) ''SELECT 5 %% 2, ?'' [ex_arg 1 (VInt64 7)] = ''SELECT 5 % 2, 7'' \<and>
   fst (snd (ExecContext (ex_world []) ex_two_placeholders
               [ex_arg 1 (VString ''who?''), ex_arg 2 (VInt64 7)])) = ex_two_placeholders"
  by (simp add: QueryContext_def ExecContext_def Catcher_FindResponse_def
        ex_two_placeholders_def ex_stmt_def ex_world_def ex_arg_def Sprintf_def fmt_int_def
        decimal.simps default_response_def query_hook_fires_def exec_hook_fires_def
        fire_callback_def)

section \<open>Closing a chain of statements\<close>

lemma Close_chain: "chain_has_db s \<Longrightarrow> Close s = Inr (None, close_chain s)"
proof (induction s rule: Close.induct)
  case (1 cn qq cmd nx cl cns cts ph)
  then show ?case
    by (cases cn; cases nx) (auto split: option.splits)
qed

lemma Close_panics: "\<not> chain_has_db s \<Longrightarrow> isl (Close s)"
proof (induction s rule: Close.induct)
  case (1 cn qq cmd nx cl cns cts ph)
  show ?case
  proof (cases cn)
    case None
    then show ?thesis by simp
  next
    case (Some conn)
    note cn = this
    show ?thesis
    proof (cases "db conn")
      case None
      with cn show ?thesis by simp
    next
      case (Some d)
      note d = this
      show ?thesis
      proof (cases nx)
        case None
        with cn d "1.prems" show ?thesis by simp
      next
        case (Some n)
        with cn d "1.prems" have "\<not> chain_has_db n" by simp
        then have "isl (Close n)"
          using "1.IH" [OF cn d refl Some] by simp
        with cn d Some show ?thesis by (cases "Close n") simp_all
      qed
    qed
  qed
qed

lemma chain_has_db_close_chain: "chain_has_db (close_chain s) = chain_has_db s"
  by (induction s rule: close_chain.induct) (auto split: option.splits)

lemma close_chain_idem: "close_chain (close_chain s) = close_chain s"
  by (induction s rule: close_chain.induct) (auto split: option.splits)

lemma closed_close_chain: "closed (close_chain s)"
  by (cases s) simp

text \<open>
  C10, as stated, fails: a statement whose own connection and db are not nil still
  panics in \<open>Close\<close> when the statement chained behind it has no connection, because
  the panic of \<open>s.next.Close()\<close> unwinds through the caller.
\<close>

theorem close_panics_on_chained_nil_conn:
  "connection ex_chained_stmt = Some ex_conn \<and> db ex_conn = Some 1 \<and>
   Close ex_chained_stmt = Inl (Panic ''nil conn in FakeStmt.Close'')"
  by (simp add: ex_chained_stmt_def ex_conn_def)

text \<open>
  C10, amended: for a statement with a finite next chain, when the statement and every
  statement of the chain has a connection that is not nil and whose db is not nil,
  \<open>Close\<close> returns nil, leaves the statement with the closed flag set on it and on
  every statement of the chain and nothing else changed, and does the same on a
  statement that is already closed (a second \<open>Close\<close> returns nil again and changes
  nothing). When the connection of the statement itself is nil, or its db is nil,
  \<open>Close\<close> panics and returns no error, and so it does whenever the chain reaches a
  statement whose connection or db is nil.
\<close>

theorem close_returns_nil_on_connected_chain:
  "(chain_has_db s \<longrightarrow>
      Close s = Inr (None, close_chain s) \<and> closed (close_chain s) \<and>
      Close (close_chain s) = Inr (None, close_chain s)) \<and>
   (connection s = None \<longrightarrow> Close s = Inl (Panic ''nil conn in FakeStmt.Close'')) \<and>
   (connection s = Some conn \<and> db conn = None \<longrightarrow>
      Close s = Inl (Panic (''in FakeStmt.Close, conn'' @ [CHR 0x27] @
                             ''s db is nil (already closed)''))) \<and>
   (\<not> chain_has_db s \<longrightarrow> isl (Close s))"
proof (intro conjI impI)
  assume ok: "chain_has_db s"
  show "Close s = Inr (None, close_chain s)" by (rule Close_chain [OF ok])
  show "closed (close_chain s)" by (rule closed_close_chain)
  show "Close (close_chain s) = Inr (None, close_chain s)"
    using Close_chain [of "close_chain s"] ok
    by (simp add: chain_has_db_close_chain close_chain_idem)
next
  assume "connection s = None"
  then show "Close s = Inl (Panic ''nil conn in FakeStmt.Close'')" by (cases s) simp
next
  assume "connection s = Some conn \<and> db conn = None"
  then show "Close s = Inl (Panic (''in FakeStmt.Close, conn'' @ [CHR 0x27] @
                             ''s db is nil (already closed)''))"
    by (cases s) simp
next
  assume "\<not> chain_has_db s"
  then show "isl (Close s)" by (rule Close_panics)
qed

theorem close_returns_nil_on_connected_chain_witness:
  "chain_has_db ex_chain_ok \<and>
   Close ex_chain_ok =
     Inr (None, FakeStmt (Some ex_conn) ''SELECT 1'' ''SELECT''
       (Some (FakeStmt (Some ex_conn) ''SELECT 2'' ''SELECT'' None True [] [] 0))
       True [] [] 0) \<and>
   connection (FakeStmt None ''SELECT 2'' ''SELECT'' None False [] [] 0) = None \<and>
   Close (FakeStmt None ''SELECT 2'' ''SELECT'' None False [] [] 0) =
     Inl (Panic ''nil conn in FakeStmt.Close'') \<and>
   connection (FakeStmt (Some \<lparr>db = None, currTx = None\<rparr>) ''SELECT 2'' ''SELECT'' None
                 False [] [] 0) = Some \<lparr>db = None, currTx = None\<rparr> \<and>
   Close (FakeStmt (Some \<lparr>db = None, currTx = None\<rparr>) ''SELECT 2'' ''SELECT'' None
            False [] [] 0) =
     Inl (Panic (''in FakeStmt.Close, conn'' @ [CHR 0x27] @ ''s db is nil (already closed)'')) \<and>
   \<not> chain_has_db
       (FakeStmt (Some ex_conn) ''SELECT 1'' ''SELECT''
          (Some (FakeStmt (Some \<lparr>db = None, currTx = None\<rparr>) ''SELECT 2'' ''SELECT'' None
                   False [] [] 0)) False [] [] 0) \<and>
   isl (Close
       (FakeStmt (Some ex_conn) ''SELECT 1'' ''SELECT''
          (Some (FakeStmt (Some \<lparr>db = None, currTx = None\<rparr>) ''SELECT 2'' ''SELECT'' None
                   False [] [] 0)) False [] [] 0))"
  using close_returns_nil_on_connected_chain [of ex_chain_ok]
    close_returns_nil_on_connected_chain
      [of "FakeStmt (Some ex_conn) ''SELECT 1'' ''SELECT''
             (Some (FakeStmt (Some \<lparr>db = None, currTx = None\<rparr>) ''SELECT 2'' ''SELECT'' None
                      False [] [] 0)) False [] [] 0"]
    close_returns_nil_on_connected_chain
      [of "FakeStmt None ''SELECT 2'' ''SELECT'' None False [] [] 0"]
    close_returns_nil_on_connected_chain
      [of "FakeStmt (Some \<lparr>db = None, currTx = None\<rparr>) ''SELECT 2'' ''SELECT'' None
             False [] [] 0" "\<lparr>db = None, currTx = None\<rparr>"]
  by (simp add: ex_chain_ok_def ex_conn_def)

section \<open>Ending a transaction\<close>

lemma hook_fires_iff: "hook_fires hk \<longleftrightarrow> (\<exists>h. hk = Some h \<and> h ())"
  by (auto simp: hook_fires_def split: option.splits)

text \<open>
  C9: for a transaction with an owning connection, \<open>Commit\<close> and \<open>Rollback\<close> each
  leave the connection with its current-transaction reference cleared and nothing else
  changed, whatever the hook says; the return is \<open>driver.ErrBadConn\<close> exactly when the
  hook of the operation is set and returns true, and nil otherwise. The world is only
  read.
\<close>

theorem commit_rollback_clear_current_tx:
  assumes "tx_c tx = Some conn"
  shows "Commit w tx =
           Inr (if \<exists>h. HookBadCommit w = Some h \<and> h () then Some ErrBadConn else None,
                tx\<lparr>tx_c := Some (conn\<lparr>currTx := None\<rparr>)\<rparr>) \<and>
         Rollback w tx =
           Inr (if \<exists>h. HookBadRollback w = Some h \<and> h () then Some ErrBadConn else None,
                tx\<lparr>tx_c := Some (conn\<lparr>currTx := None\<rparr>)\<rparr>)"
  using assms by (auto simp: Commit_def Rollback_def hook_fires_iff Let_def)

theorem commit_rollback_clear_current_tx_witness:
  "tx_c \<lparr>tx_c = Some ex_conn\<rparr> = Some ex_conn \<and>
   currTx ex_conn = Some 1 \<and>
   Commit ((ex_world [])\<lparr>HookBadCommit := Some (\<lambda>u. True)\<rparr>) \<lparr>tx_c = Some ex_conn\<rparr> =
     Inr (Some ErrBadConn, \<lparr>tx_c = Some \<lparr>db = Some 1, currTx = None\<rparr>\<rparr>) \<and>
   Rollback ((ex_world [])\<lparr>HookBadCommit := Some (\<lambda>u. True)\<rparr>) \<lparr>tx_c = Some ex_conn\<rparr> =
     Inr (None, \<lparr>tx_c = Some \<lparr>db = Some 1, currTx = None\<rparr>\<rparr>)"
  using commit_rollback_clear_current_tx
          [of "\<lparr>tx_c = Some ex_conn\<rparr>" ex_conn
              "(ex_world [])\<lparr>HookBadCommit := Some (\<lambda>u. True)\<rparr>"]
  by (simp add: ex_conn_def ex_world_def)

end
